theory Spec2Isabelle
  imports Main "HOL-Library.Word" "HOL-Library.Char_ord" "HOL-Library.List_Lexorder"
    "HOL-Library.Multiset"
begin

unbundle bit_operations_syntax

section \<open>Python values the pipeline handles\<close>

text \<open>
  Bytes are 8-bit words. A Python \<open>str\<close> is a \<open>string\<close>; each character stands for
  the code point of the same number, so the model covers the strings whose code points
  are below 256. Exceptions are values of \<open>py_error\<close>; a function that can raise
  returns \<open>py_error + 'a\<close>.
\<close>

type_synonym byte = "8 word"

datatype py_error =
  ValueError | IndexError | KeyError | AttributeError | TypeError | JSONDecodeError | OSError

section \<open>Hexadecimal digests: \<open>hexdigest\<close> and \<open>bytes.fromhex\<close>\<close>

definition hexchar :: "nat \<Rightarrow> char" where
  "hexchar n = ''0123456789abcdef'' ! n"

definition hex_byte :: "byte \<Rightarrow> string" where
  "hex_byte b = [hexchar (unat b div 16), hexchar (unat b mod 16)]"

definition hexdigest :: "byte list \<Rightarrow> string" where
  "hexdigest bs = concat (map hex_byte bs)"

text \<open>The digit table of \<open>bytes.fromhex\<close>: \<open>0-9\<close>, \<open>a-f\<close> and \<open>A-F\<close>.\<close>

definition hexval :: "char \<Rightarrow> nat option" where
  "hexval c =
     (let n = (of_char c :: nat) in
      if 48 \<le> n \<and> n \<le> 57 then Some (n - 48)
      else if 97 \<le> n \<and> n \<le> 102 then Some (n - 87)
      else if 65 \<le> n \<and> n \<le> 70 then Some (n - 55)
      else None)"

text \<open>ASCII whitespace, which \<open>bytes.fromhex\<close> skips between bytes: space, \<open>\t \n \v \f \r\<close>.\<close>

definition isspace :: "char \<Rightarrow> bool" where
  "isspace c = (let n = (of_char c :: nat) in n = 32 \<or> (9 \<le> n \<and> n \<le> 13))"

text \<open>
  \<open>bytes.fromhex(s)\<close>: two hexadecimal digits per byte, whitespace allowed before a
  byte but not between its two digits; anything else raises \<open>ValueError\<close>.
\<close>

fun fromhex :: "string \<Rightarrow> py_error + byte list" where
  "fromhex [] = Inr []"
| "fromhex (c # cs) =
     (if isspace c then fromhex cs
      else case hexval c of
        None \<Rightarrow> Inl ValueError
      | Some hi \<Rightarrow>
          (case cs of
             [] \<Rightarrow> Inl ValueError
           | d # ds \<Rightarrow>
               (case hexval d of
                  None \<Rightarrow> Inl ValueError
                | Some lo \<Rightarrow>
                    (case fromhex ds of
                       Inl e \<Rightarrow> Inl e
                     | Inr bs \<Rightarrow> Inr (of_nat (16 * hi + lo) # bs)))))"

section \<open>The Merkle aggregator (\<open>upload_to_ipfs.py\<close>)\<close>

text \<open>
  \<open>hashlib.sha256\<close> is a library function; the aggregator takes it as the parameter
  \<open>H\<close>, from the bytes hashed to the raw digest. \<open>hashlib.sha256(x).hexdigest()\<close> is
  \<open>hexdigest (H x)\<close>.
\<close>

text \<open>\<open>if len(current) % 2 == 1: current.append(current[-1])\<close>\<close>

definition pad_odd :: "string list \<Rightarrow> string list" where
  "pad_odd current = (if length current mod 2 = 1 then current @ [last current] else current)"

text \<open>
  The \<open>for i in range(0, len(current), 2)\<close> loop building \<open>next_level\<close>. In each
  round \<open>bytes.fromhex(current[i])\<close> runs first, then \<open>current[i+1]\<close> is read (an
  \<open>IndexError\<close> when the list has odd length) and decoded.
\<close>

fun next_level :: "(byte list \<Rightarrow> byte list) \<Rightarrow> string list \<Rightarrow> py_error + string list" where
  "next_level H [] = Inr []"
| "next_level H [a] = (case fromhex a of Inl e \<Rightarrow> Inl e | Inr x \<Rightarrow> Inl IndexError)"
| "next_level H (a # b # rest) =
     (case fromhex a of
        Inl e \<Rightarrow> Inl e
      | Inr x \<Rightarrow>
          (case fromhex b of
             Inl e \<Rightarrow> Inl e
           | Inr y \<Rightarrow>
               (case next_level H rest of
                  Inl e \<Rightarrow> Inl e
                | Inr nl \<Rightarrow> Inr (hexdigest (H (x @ y)) # nl))))"

lemma next_level_length: "next_level H xs = Inr nl \<Longrightarrow> length xs = 2 * length nl"
  by (induction H xs arbitrary: nl rule: next_level.induct) (auto split: sum.splits)

lemma length_pad_odd: "length (pad_odd xs) = length xs + length xs mod 2"
  by (simp add: pad_odd_def)

text \<open>The \<open>while len(current) > 1\<close> loop; it returns the final \<open>current\<close>.\<close>

function merkle_loop :: "(byte list \<Rightarrow> byte list) \<Rightarrow> string list \<Rightarrow> py_error + string list" where
  "merkle_loop H current =
     (if length current > 1 then
        (case next_level H (pad_odd current) of
           Inl e \<Rightarrow> Inl e
         | Inr nl \<Rightarrow> merkle_loop H nl)
      else Inr current)"
  by pat_completeness auto
termination
proof (relation "measure (\<lambda>(H, current). length current)")
  show "wf (measure (\<lambda>(H, current). length current))" by simp
next
  fix H :: "byte list \<Rightarrow> byte list" and current nl :: "string list"
  assume big: "1 < length current" and nl: "next_level H (pad_odd current) = Inr nl"
  from next_level_length [OF nl] have "2 * length nl = length current + length current mod 2"
    by (simp add: length_pad_odd)
  with big have "length nl < length current" by arith
  then show "((H, nl), (H, current)) \<in> measure (\<lambda>(H, current). length current)" by simp
qed

text \<open>
  \<open>compute_merkle_root\<close>: \<open>None\<close> for an empty list, otherwise \<open>current[0]\<close> after
  the loop.
\<close>

definition compute_merkle_root ::
  "(byte list \<Rightarrow> byte list) \<Rightarrow> string list \<Rightarrow> py_error + string option" where
  "compute_merkle_root H hash_list =
     (if hash_list = [] then Inr None
      else case merkle_loop H hash_list of
        Inl e \<Rightarrow> Inl e
      | Inr current \<Rightarrow> (case current of [] \<Rightarrow> Inl IndexError | r # _ \<Rightarrow> Inr (Some r)))"

section \<open>JSON values and \<open>json.dumps\<close>\<close>

text \<open>
  What \<open>json.loads\<close> returns. A \<open>dict\<close> is the list of its items in insertion order
  (the order of the fields in the message text); a well-formed one has distinct keys.
  A Python \<open>float\<close> is identified by the text \<open>json.dumps\<close> emits for it (its
  \<open>repr\<close>, or \<open>NaN\<close>, \<open>Infinity\<close>, \<open>-Infinity\<close>), which is different for different
  floats: \<open>JFloat ''1.0''\<close> is the float \<open>1.0\<close>, \<open>JInt 1\<close> the integer \<open>1\<close>.
\<close>

datatype json =
  JNull
| JBool bool
| JInt int
| JFloat string
| JStr string
| JArr "json list"
| JObj "(string \<times> json) list"

fun wf_json :: "json \<Rightarrow> bool" where
  "wf_json (JArr xs) = (\<forall>x \<in> set xs. wf_json x)"
| "wf_json (JObj kvs) = (distinct (map fst kvs) \<and> (\<forall>kv \<in> set kvs. wf_json (snd kv)))"
| "wf_json v = True"

text \<open>\<open>str(i)\<close> for an integer.\<close>

fun str_nat :: "nat \<Rightarrow> string" where
  "str_nat n = (if n < 10 then [char_of (48 + n)] else str_nat (n div 10) @ [char_of (48 + n mod 10)])"

definition str_int :: "int \<Rightarrow> string" where
  "str_int i = (if i < 0 then CHR ''-'' # str_nat (nat (- i)) else str_nat (nat i))"

text \<open>
  The string encoder of \<open>json.dumps\<close> with \<open>ensure_ascii\<close> (the default): printable
  ASCII is kept, the quote and the backslash are escaped, the other characters become
  \<open>\b \f \n \r \t\<close> or \<open>\u00XX\<close>.
\<close>

definition escape_char :: "char \<Rightarrow> string" where
  "escape_char c =
     (let n = (of_char c :: nat) in
      if n = 34 then [CHR 0x5C, CHR 0x22]
      else if n = 92 then [CHR 0x5C, CHR 0x5C]
      else if n = 8 then [CHR 0x5C, CHR ''b'']
      else if n = 12 then [CHR 0x5C, CHR ''f'']
      else if n = 10 then [CHR 0x5C, CHR ''n'']
      else if n = 13 then [CHR 0x5C, CHR ''r'']
      else if n = 9 then [CHR 0x5C, CHR ''t'']
      else if 32 \<le> n \<and> n \<le> 126 then [c]
      else [CHR 0x5C, CHR ''u'', CHR ''0'', CHR ''0'', hexchar (n div 16), hexchar (n mod 16)])"

definition encode_basestring_ascii :: "string \<Rightarrow> string" where
  "encode_basestring_ascii s = CHR 0x22 # concat (map escape_char s) @ [CHR 0x22]"

fun join :: "string \<Rightarrow> string list \<Rightarrow> string" where
  "join sep [] = []"
| "join sep [x] = x"
| "join sep (x # y # ys) = x @ sep @ join sep (y # ys)"

text \<open>\<open>'\n' + ' ' * (indent * level)\<close> when \<open>indent\<close> is given, nothing otherwise.\<close>

definition newline_indent :: "nat option \<Rightarrow> nat \<Rightarrow> string" where
  "newline_indent indent level =
     (case indent of None \<Rightarrow> [] | Some n \<Rightarrow> CHR 0x0A # replicate (n * level) CHR '' '')"

definition item_separator :: "nat option \<Rightarrow> string" where
  "item_separator indent = (case indent of None \<Rightarrow> '', '' | Some n \<Rightarrow> '','')"

text \<open>
  \<open>json.dumps(v, sort_keys=sk, indent=indent)\<close> at nesting depth \<open>level\<close>. With
  \<open>sort_keys\<close> the items of a dict are sorted, which for distinct keys is the order of
  the keys.
\<close>

function (sequential) dumps_at :: "bool \<Rightarrow> nat option \<Rightarrow> nat \<Rightarrow> json \<Rightarrow> string" where
  "dumps_at sk indent level JNull = ''null''"
| "dumps_at sk indent level (JBool b) = (if b then ''true'' else ''false'')"
| "dumps_at sk indent level (JInt i) = str_int i"
| "dumps_at sk indent level (JFloat r) = r"
| "dumps_at sk indent level (JStr s) = encode_basestring_ascii s"
| "dumps_at sk indent level (JArr xs) =
     (if xs = [] then ''[]''
      else ''['' @ newline_indent indent (level + 1)
        @ join (item_separator indent @ newline_indent indent (level + 1))
            (map (dumps_at sk indent (level + 1)) xs)
        @ newline_indent indent level @ '']'')"
| "dumps_at sk indent level (JObj kvs) =
     (if kvs = [] then ''{}''
      else ''{'' @ newline_indent indent (level + 1)
        @ join (item_separator indent @ newline_indent indent (level + 1))
            (map (\<lambda>kv. encode_basestring_ascii (fst kv) @ '': '' @ dumps_at sk indent (level + 1) (snd kv))
               (if sk then sort_key fst kvs else kvs))
        @ newline_indent indent level @ ''}'')"
  by pat_completeness auto
termination
proof (relation "measure (\<lambda>(sk, indent, level, v). size v)")
  show "wf (measure (\<lambda>(sk, indent, level, v). size v))" by simp
next
  fix sk :: bool and indent :: "nat option" and level :: nat and xs :: "json list" and x :: json
  assume "x \<in> set xs"
  then have "size x < Suc (size_list size xs)"
    by (induction xs) auto
  then show "((sk, indent, level + 1, x), (sk, indent, level, JArr xs))
      \<in> measure (\<lambda>(sk, indent, level, v). size v)"
    by simp
next
  fix sk :: bool and indent :: "nat option" and level :: nat
    and kvs :: "(string \<times> json) list" and kv :: "string \<times> json"
  assume "kv \<in> set (if sk then sort_key fst kvs else kvs)"
  then have "kv \<in> set kvs" by (simp split: if_splits)
  moreover have "size (snd kv) \<le> size_prod (\<lambda>_. 0) size kv"
    by (cases kv) simp
  ultimately have "size (snd kv) \<le> size_list (size_prod (\<lambda>_. 0) size) kvs"
    by (rule size_list_estimation')
  then have "size (snd kv) < size (JObj kvs)"
    by simp
  then show "((sk, indent, level + 1, snd kv), (sk, indent, level, JObj kvs))
      \<in> measure (\<lambda>(sk, indent, level, v). size v)"
    by simp
qed

definition json_dumps :: "bool \<Rightarrow> nat option \<Rightarrow> json \<Rightarrow> string" where
  "json_dumps sk indent v = dumps_at sk indent 0 v"

text \<open>\<open>s.encode('utf-8')\<close> for code points below 256.\<close>

definition utf8_char :: "char \<Rightarrow> byte list" where
  "utf8_char c =
     (let n = (of_char c :: nat) in
      if n < 128 then [of_nat n] else [of_nat (192 + n div 64), of_nat (128 + n mod 64)])"

definition encode_utf8 :: "string \<Rightarrow> byte list" where
  "encode_utf8 s = concat (map utf8_char s)"

section \<open>The batch accumulator (\<open>data_cleaner.py\<close>)\<close>

definition MAX_PER_BATCH :: nat where
  "MAX_PER_BATCH = 4"

definition BATCH_DIR :: string where
  "BATCH_DIR = ''./batches''"

text \<open>\<open>calc_sha256\<close>: the digest of the key-sorted JSON text of the dict it is given.\<close>

definition calc_sha256 :: "(byte list \<Rightarrow> byte list) \<Rightarrow> json \<Rightarrow> string" where
  "calc_sha256 H record = hexdigest (H (encode_utf8 (json_dumps True None record)))"

text \<open>
  The state the handler changes: \<open>batch_cache\<close>, a \<open>defaultdict(list)\<close> (a key never
  used holds the empty list), and the artifact files written so far, each with its path
  and its content, in the order of the writes.
\<close>

record cleaner_state =
  batch_cache :: "string \<Rightarrow> json list"
  written :: "(string \<times> string) list"

text \<open>
  What one call reads from outside: the clock, as the text
  \<open>datetime.utcnow().strftime('%Y%m%dT%H%M%SZ')\<close> gives, and whether
  \<open>os.makedirs\<close> and \<open>open(path, 'w')\<close> succeed for a path (they raise \<open>OSError\<close>
  otherwise, for instance when the file name is too long for the file system).
\<close>

record env =
  utcnow :: string
  writable :: "string \<Rightarrow> bool"

text \<open>
  \<open>try_flush_batch\<close>: the exception raised, if any, and the state it leaves. The file
  is written before the cache entry is cleared, so a failed write leaves the entry as
  it was.
\<close>

definition try_flush_batch :: "env \<Rightarrow> string \<Rightarrow> cleaner_state \<Rightarrow> py_error option \<times> cleaner_state" where
  "try_flush_batch e batch_id s =
     (let records = batch_cache s batch_id in
      if length records \<ge> MAX_PER_BATCH then
        (let filename = batch_id @ ''_'' @ utcnow e @ ''.json'';
             path = BATCH_DIR @ ''/'' @ filename
         in if writable e path then
              (None, s\<lparr>written := written s @ [(path, json_dumps False (Some 2) (JArr records))],
                        batch_cache := (batch_cache s)(batch_id := [])\<rparr>)
            else (Some OSError, s))
      else (None, s))"

text \<open>\<open>s.split(sep)\<close> for a one-character separator.\<close>

fun split_on :: "char \<Rightarrow> string \<Rightarrow> string list" where
  "split_on sep [] = [[]]"
| "split_on sep (c # cs) =
     (if c = sep then [] # split_on sep cs
      else (case split_on sep cs of [] \<Rightarrow> [[c]] | w # ws \<Rightarrow> (c # w) # ws))"

text \<open>\<open>d.get(k)\<close> (\<open>None\<close> when the key is missing) and \<open>d[k]\<close> (\<open>KeyError\<close>).\<close>

definition dict_get :: "(string \<times> json) list \<Rightarrow> string \<Rightarrow> json" where
  "dict_get d k = (case map_of d k of None \<Rightarrow> JNull | Some v \<Rightarrow> v)"

definition dict_item :: "(string \<times> json) list \<Rightarrow> string \<Rightarrow> py_error + json" where
  "dict_item d k = (case map_of d k of None \<Rightarrow> Inl KeyError | Some v \<Rightarrow> Inr v)"

text \<open>\<open>isinstance(v, (int, float))\<close>; \<open>bool\<close> is a subclass of \<open>int\<close>.\<close>

fun is_number :: "json \<Rightarrow> bool" where
  "is_number (JInt i) = True"
| "is_number (JFloat r) = True"
| "is_number (JBool b) = True"
| "is_number v = False"

text \<open>The record literal of \<open>on_message\<close>; its values are evaluated in the order written.\<close>

definition make_record ::
  "(byte list \<Rightarrow> byte list) \<Rightarrow> string \<Rightarrow> (string \<times> json) list \<Rightarrow> py_error + json" where
  "make_record H batch_id d =
     (case dict_item d ''ts'' of Inl e \<Rightarrow> Inl e | Inr ts \<Rightarrow>
      case dict_item d ''temp'' of Inl e \<Rightarrow> Inl e | Inr temp \<Rightarrow>
      case dict_item d ''hum'' of Inl e \<Rightarrow> Inl e | Inr hum \<Rightarrow>
      case dict_item d ''location'' of Inl e \<Rightarrow> Inl e | Inr location \<Rightarrow>
      case dict_item d ''productName'' of Inl e \<Rightarrow> Inl e | Inr productName \<Rightarrow>
        Inr (JObj [(''batch_id'', JStr batch_id), (''ts'', ts), (''temp'', temp), (''hum'', hum),
                   (''location'', location), (''productName'', productName),
                   (''hash'', JStr (calc_sha256 H (JObj d)))]))"

text \<open>
  The \<open>try\<close> block of \<open>on_message\<close>: the exception it ends with (\<open>None\<close> when it
  reaches a \<open>basic_ack\<close>) and the state at that point. \<open>json.loads\<close> is the parameter
  \<open>loads\<close>.
\<close>

definition on_message_try ::
  "(byte list \<Rightarrow> byte list) \<Rightarrow> ('b \<Rightarrow> py_error + json) \<Rightarrow> env \<Rightarrow> string \<Rightarrow> 'b \<Rightarrow> cleaner_state
     \<Rightarrow> py_error option \<times> cleaner_state" where
  "on_message_try H loads e routing_key body s =
     (case loads body of
        Inl err \<Rightarrow> (Some err, s)
      | Inr payload \<Rightarrow>
          (case split_on CHR ''/'' routing_key of
             x # batch_id # rest \<Rightarrow>
               (case payload of
                  JObj d \<Rightarrow>
                    if \<not> is_number (dict_get d ''temp'') then (None, s)
                    else if \<not> is_number (dict_get d ''hum'') then (None, s)
                    else
                      (case make_record H batch_id d of
                         Inl err \<Rightarrow> (Some err, s)
                       | Inr record \<Rightarrow>
                           try_flush_batch e batch_id
                             (s\<lparr>batch_cache :=
                                  (batch_cache s)(batch_id := batch_cache s batch_id @ [record])\<rparr>))
                | _ \<Rightarrow> (Some AttributeError, s))
           | _ \<Rightarrow> (Some IndexError, s)))"

text \<open>
  What the broker is told: \<open>basic_ack\<close>, or \<open>basic_nack(requeue=False)\<close> from the
  \<open>except\<close> clause.
\<close>

datatype delivery = Ack | Nack

definition on_message ::
  "(byte list \<Rightarrow> byte list) \<Rightarrow> ('b \<Rightarrow> py_error + json) \<Rightarrow> env \<Rightarrow> string \<Rightarrow> 'b \<Rightarrow> cleaner_state
     \<Rightarrow> delivery \<times> cleaner_state" where
  "on_message H loads e routing_key body s =
     (case on_message_try H loads e routing_key body s of
        (None, s') \<Rightarrow> (Ack, s')
      | (Some err, s') \<Rightarrow> (Nack, s'))"

text \<open>
  The consumer loop: \<open>on_message\<close> is called for each delivery in turn, each with
  the environment of its moment.
\<close>

fun consume ::
  "(byte list \<Rightarrow> byte list) \<Rightarrow> ('b \<Rightarrow> py_error + json) \<Rightarrow> (env \<times> string \<times> 'b) list
     \<Rightarrow> cleaner_state \<Rightarrow> delivery list \<times> cleaner_state" where
  "consume H loads [] s = ([], s)"
| "consume H loads ((e, routing_key, body) # ms) s =
     (case on_message H loads e routing_key body s of
        (dl, s') \<Rightarrow> (case consume H loads ms s' of (dls, s'') \<Rightarrow> (dl # dls, s'')))"

section \<open>Notions the properties are stated with\<close>

text \<open>The batch key of a routing key: the segment \<open>on_message\<close> reads, when there is one.\<close>

definition batch_id_of :: "string \<Rightarrow> string option" where
  "batch_id_of routing_key =
     (case split_on CHR ''/'' routing_key of x # batch_id # rest \<Rightarrow> Some batch_id | _ \<Rightarrow> None)"

text \<open>The path \<open>try_flush_batch\<close> writes the artifact of a batch to.\<close>

definition artifact_path :: "env \<Rightarrow> string \<Rightarrow> string" where
  "artifact_path e batch_id = BATCH_DIR @ ''/'' @ batch_id @ ''_'' @ utcnow e @ ''.json''"

text \<open>\<open>batch_cache[batch_id].append(record)\<close>\<close>

definition append_record :: "string \<Rightarrow> json \<Rightarrow> cleaner_state \<Rightarrow> cleaner_state" where
  "append_record k r s = s\<lparr>batch_cache := (batch_cache s)(k := batch_cache s k @ [r])\<rparr>"

text \<open>
  A malformed payload: one of \<open>temp\<close>, \<open>hum\<close>, \<open>ts\<close> is missing, or \<open>temp\<close> or
  \<open>hum\<close> is not a number.
\<close>

definition malformed :: "(string \<times> json) list \<Rightarrow> bool" where
  "malformed d \<longleftrightarrow>
     map_of d ''temp'' = None \<or> map_of d ''hum'' = None \<or> map_of d ''ts'' = None
     \<or> \<not> is_number (dict_get d ''temp'') \<or> \<not> is_number (dict_get d ''hum'')"

text \<open>
  The JSON text of an event with exactly the five fields of the sensor message, keys in
  sorted order, every value as \<open>json.dumps\<close> renders it.
\<close>

definition quoted :: "string \<Rightarrow> string" where
  "quoted s = CHR 0x22 # s @ [CHR 0x22]"

definition event_text :: "json \<Rightarrow> json \<Rightarrow> json \<Rightarrow> json \<Rightarrow> json \<Rightarrow> string" where
  "event_text hum location productName temp ts =
     ''{'' @ quoted ''hum'' @ '': '' @ json_dumps True None hum
     @ '', '' @ quoted ''location'' @ '': '' @ json_dumps True None location
     @ '', '' @ quoted ''productName'' @ '': '' @ json_dumps True None productName
     @ '', '' @ quoted ''temp'' @ '': '' @ json_dumps True None temp
     @ '', '' @ quoted ''ts'' @ '': '' @ json_dumps True None ts @ ''}''"

section \<open>A stand-in hash for concrete instances\<close>

text \<open>
  Every theorem below is proved for an arbitrary \<open>H\<close>, SHA-256 included. Where a
  theorem is instantiated at a concrete input, \<open>H\<close> is this two-byte checksum: the
  length of the message and the sum of its bytes.
\<close>

definition checksum :: "byte list \<Rightarrow> byte list" where
  "checksum m = [of_nat (length m), fold (+) m 0]"

section \<open>Concrete messages, states and environments\<close>

text \<open>
  The message of \<open>publish_test.py\<close>, fields in the order it sends them, with the
  temperature and the timestamp left open.
\<close>

definition beef_event :: "json \<Rightarrow> string \<Rightarrow> (string \<times> json) list" where
  "beef_event temp ts =
     [(''temp'', temp), (''hum'', JFloat ''80.5''), (''ts'', JStr ts),
      (''location'', JStr ''Beijing''), (''productName'', JStr ''Beef'')]"

text \<open>The state at start: an empty \<open>batch_cache\<close>, nothing written.\<close>

definition initial_state :: cleaner_state where
  "initial_state = \<lparr>batch_cache = (\<lambda>k. []), written = []\<rparr>"

text \<open>An environment with the given clock text where every write succeeds, or none.\<close>

definition env_at :: "string \<Rightarrow> bool \<Rightarrow> env" where
  "env_at now ok = \<lparr>utcnow = now, writable = (\<lambda>path. ok)\<rparr>"

text \<open>
  A delivery of the test message for batch \<open>batch321\<close> with the given temperature,
  and the record \<open>on_message\<close> makes of it.
\<close>

definition test_delivery :: "string \<Rightarrow> bool \<Rightarrow> env \<times> string \<times> json" where
  "test_delivery temp ok =
     (env_at ''20250731T020929Z'' ok, ''coldchain/batch321/sensor'',
      JObj (beef_event (JFloat temp) ''2025-07-31T01:56:14Z''))"

definition test_record :: "string \<Rightarrow> json" where
  "test_record temp =
     JObj [(''batch_id'', JStr ''batch321''), (''ts'', JStr ''2025-07-31T01:56:14Z''),
           (''temp'', JFloat temp), (''hum'', JFloat ''80.5''), (''location'', JStr ''Beijing''),
           (''productName'', JStr ''Beef''),
           (''hash'', JStr (calc_sha256 checksum
              (JObj (beef_event (JFloat temp) ''2025-07-31T01:56:14Z''))))]"

text \<open>The state after the deliveries with temperatures \<open>1.0\<close>, \<open>2.0\<close> and \<open>3.5\<close>.\<close>

definition after_three :: cleaner_state where
  "after_three =
     snd (consume checksum Inr
       [test_delivery ''1.0'' True, test_delivery ''2.0'' True, test_delivery ''3.5'' True]
       initial_state)"

section \<open>Fingerprints\<close>


section \<open>Properties of the Merkle aggregator\<close>

lemma hexchar_table:
  "\<forall>n \<in> set [0..<16]. hexval (hexchar n) = Some n \<and> \<not> isspace (hexchar n)"
  by code_simp

lemma hexval_hexchar: "n < 16 \<Longrightarrow> hexval (hexchar n) = Some n"
  using hexchar_table by simp

lemma isspace_hexchar: "n < 16 \<Longrightarrow> \<not> isspace (hexchar n)"
  using hexchar_table by simp

lemma high_nibble_less: "unat (b::byte) div 16 < 16"
  using unsigned_less [of b, where 'a = nat] by simp

lemma byte_nibbles: "word_of_nat (16 * (unat b div 16) + unat b mod 16) = (b::byte)"
  by (simp only: mult_div_mod_eq) simp

lemma fromhex_hex_byte:
  "fromhex (hex_byte b @ s) = (case fromhex s of Inl e \<Rightarrow> Inl e | Inr bs \<Rightarrow> Inr (b # bs))"
  by (simp add: hex_byte_def hexval_hexchar isspace_hexchar high_nibble_less byte_nibbles
      split: sum.splits)

text \<open>Decoding a digest rendered by \<open>hexdigest\<close> gives the digest back.\<close>

lemma fromhex_hexdigest: "fromhex (hexdigest bs) = Inr bs"
  by (induction bs) (simp_all add: hexdigest_def fromhex_hex_byte)









text \<open>
  Claim C1. For four fingerprints \<open>h1, h2, h3, h4\<close> with raw digests \<open>b1, b2, b3, b4\<close>,
  \<open>compute_merkle_root\<close> returns the hex digest of
  \<open>H (H (b1 || b2) || H (b3 || b4))\<close>: the two pairs are hashed, then the two parents.
\<close>

theorem merkle_root_four:
  assumes "fromhex h1 = Inr b1" "fromhex h2 = Inr b2" "fromhex h3 = Inr b3" "fromhex h4 = Inr b4"
  shows "compute_merkle_root H [h1, h2, h3, h4]
           = Inr (Some (hexdigest (H (H (b1 @ b2) @ H (b3 @ b4)))))"
  using assms by (simp add: compute_merkle_root_def pad_odd_def fromhex_hexdigest)

theorem merkle_root_four_witness:
  "fromhex ''00'' = Inr [0] \<and> fromhex ''a1'' = Inr [161] \<and> fromhex ''B2'' = Inr [178]
     \<and> fromhex ''ff'' = Inr [255]
     \<and> compute_merkle_root checksum [''00'', ''a1'', ''B2'', ''ff'']
         = Inr (Some (hexdigest (checksum (checksum [0, 161] @ checksum [178, 255]))))"
proof -
  have h1: "fromhex ''00'' = Inr [0]" by (simp add: hexval_def isspace_def)
  have h2: "fromhex ''a1'' = Inr [161]" by (simp add: hexval_def isspace_def)
  have h3: "fromhex ''B2'' = Inr [178]" by (simp add: hexval_def isspace_def)
  have h4: "fromhex ''ff'' = Inr [255]" by (simp add: hexval_def isspace_def)
  show ?thesis
    using merkle_root_four [OF h1 h2 h3 h4, of checksum] h1 h2 h3 h4 by simp
qed

text \<open>
  Claim C4, as the code has it. On the empty list \<open>compute_merkle_root\<close> returns
  \<open>None\<close>: the call completes and raises nothing. On a singleton \<open>[h]\<close> it returns
  \<open>h\<close> unchanged.
\<close>

theorem merkle_root_empty_and_single:
  "compute_merkle_root H [] = Inr None \<and> compute_merkle_root H [h] = Inr (Some h)"
  by (simp add: compute_merkle_root_def)

text \<open>
  Claim C4 as stated fails: the call on the empty list is not an error (whatever the
  hash function, which the empty list never reaches).
\<close>

theorem merkle_root_empty_not_rejected:
  "\<not> isl (compute_merkle_root checksum []) \<and> compute_merkle_root checksum [] = Inr None"
  by (simp add: compute_merkle_root_def)



section \<open>Properties of the event hasher\<close>

lemma sort_items_permuted:
  assumes "distinct (map fst d1)" "distinct (map fst d2)" "set d1 = set d2"
  shows "sort_key fst d1 = sort_key fst d2"
proof -
  from assms have "distinct d1" "distinct d2" by (auto simp: distinct_map)
  with assms(3) have "mset d1 = mset d2" by (simp add: set_eq_iff_mset_eq_distinct)
  moreover from assms(1) have "inj_on fst (set d1)" by (simp add: distinct_map)
  ultimately show ?thesis by (rule sort_key_eq_sort_key)
qed

lemma dumps_sorted_permuted:
  assumes "distinct (map fst d1)" "distinct (map fst d2)" "set d1 = set d2"
  shows "dumps_at True indent level (JObj d1) = dumps_at True indent level (JObj d2)"
proof -
  from assms(3) have "d1 = [] \<longleftrightarrow> d2 = []" by (metis set_empty)
  with sort_items_permuted [OF assms] show ?thesis by simp
qed

lemma dumps_level: "dumps_at sk None level v = dumps_at sk None 0 v"
proof (induction v arbitrary: level)
  case (JArr xs)
  have meq: "map (dumps_at sk None (level + 1)) xs = map (dumps_at sk None (0 + 1)) xs"
    using JArr [of _ "level + 1"] JArr [of _ "0 + 1"] by (simp del: dumps_at.simps)
  show ?case by (simp only: dumps_at.simps meq newline_indent_def option.case)
next
  case (JObj kvs)
  have "dumps_at sk None (level + 1) (snd kv) = dumps_at sk None (0 + 1) (snd kv)"
    if "kv \<in> set kvs" for kv
    using JObj [of kv "snd kv" "level + 1"] JObj [of kv "snd kv" "0 + 1"] that
    by (cases kv) (simp del: dumps_at.simps)
  then have meq: "map (\<lambda>kv. encode_basestring_ascii (fst kv) @ '': '' @ dumps_at sk None (level + 1) (snd kv))
               (if sk then sort_key fst kvs else kvs)
           = map (\<lambda>kv. encode_basestring_ascii (fst kv) @ '': '' @ dumps_at sk None (0 + 1) (snd kv))
               (if sk then sort_key fst kvs else kvs)"
    by (cases sk) (simp_all del: dumps_at.simps)
  show ?case by (simp only: dumps_at.simps meq newline_indent_def option.case)
qed simp_all

lemma sorted_event_items:
  "sort_key fst [(''temp'', t), (''hum'', h), (''ts'', s), (''location'', l), (''productName'', p)]
     = [(''hum'', h), (''location'', l), (''productName'', p), (''temp'', t), (''ts'', s)]"
  by simp

lemma quoted_ascii: "encode_basestring_ascii ''hum'' = quoted ''hum''"
  "encode_basestring_ascii ''location'' = quoted ''location''"
  "encode_basestring_ascii ''productName'' = quoted ''productName''"
  "encode_basestring_ascii ''temp'' = quoted ''temp''"
  "encode_basestring_ascii ''ts'' = quoted ''ts''"
  by (simp_all add: encode_basestring_ascii_def quoted_def escape_char_def)

text \<open>
  Claim C6. Two payloads with the same field/value pairs, listed in different orders,
  have the same fingerprint.
\<close>

theorem fingerprint_field_order_invariant:
  assumes "distinct (map fst d1)" "distinct (map fst d2)" "set d1 = set d2"
  shows "calc_sha256 H (JObj d1) = calc_sha256 H (JObj d2)"
  using dumps_sorted_permuted [OF assms] by (simp add: calc_sha256_def json_dumps_def)

theorem fingerprint_field_order_invariant_witness:
  "distinct (map fst (beef_event (JFloat ''1.0'') ''2025-07-31T01:56:14Z''))
   \<and> distinct (map fst (rev (beef_event (JFloat ''1.0'') ''2025-07-31T01:56:14Z'')))
   \<and> set (beef_event (JFloat ''1.0'') ''2025-07-31T01:56:14Z'')
       = set (rev (beef_event (JFloat ''1.0'') ''2025-07-31T01:56:14Z''))
   \<and> calc_sha256 checksum (JObj (beef_event (JFloat ''1.0'') ''2025-07-31T01:56:14Z''))
       = calc_sha256 checksum (JObj (rev (beef_event (JFloat ''1.0'') ''2025-07-31T01:56:14Z'')))"
proof -
  let ?d = "beef_event (JFloat ''1.0'') ''2025-07-31T01:56:14Z''"
  have d1: "distinct (map fst ?d)" by (simp add: beef_event_def)
  then have d2: "distinct (map fst (rev ?d))" by (simp add: rev_map [symmetric])
  have eq: "set ?d = set (rev ?d)" by simp
  from fingerprint_field_order_invariant [OF d1 d2 eq, of checksum] d1 d2 eq
  show ?thesis by blast
qed

text \<open>
  Claim C2, as the code has it. The fingerprint of an event with the five fields of the
  sensor message is the digest of the JSON text of the decoded payload with the keys
  in sorted order, whatever the order they came in, and every value as \<open>json.dumps\<close>
  renders it: temperature and humidity as decoded (an integer in decimal, a float by its
  \<open>repr\<close>), the timestamp as the string received. Nothing is scaled to hundredths or
  converted to epoch seconds before hashing.
\<close>

theorem fingerprint_hashes_sorted_payload_text:
  assumes "distinct (map fst d)"
    "set d = {(''temp'', temp), (''hum'', hum), (''ts'', ts), (''location'', location),
              (''productName'', productName)}"
  shows "calc_sha256 H (JObj d)
           = hexdigest (H (encode_utf8 (event_text hum location productName temp ts)))"
proof -
  let ?t = "[(''temp'', temp), (''hum'', hum), (''ts'', ts), (''location'', location),
              (''productName'', productName)]"
  have "distinct (map fst ?t)" by simp
  moreover from assms(2) have "set d = set ?t" by simp
  ultimately have "dumps_at True None 0 (JObj d) = dumps_at True None 0 (JObj ?t)"
    using assms(1) by (intro dumps_sorted_permuted)
  also have "\<dots> = event_text hum location productName temp ts"
    by (simp add: sorted_event_items quoted_ascii event_text_def json_dumps_def
        newline_indent_def item_separator_def dumps_level [of _ "Suc 0"] del: sort_key_simps)
  finally show ?thesis by (simp add: calc_sha256_def json_dumps_def)
qed

theorem fingerprint_hashes_sorted_payload_text_witness:
  "distinct (map fst (beef_event (JFloat ''1.0'') ''2025-07-31T01:56:14Z''))
   \<and> set (beef_event (JFloat ''1.0'') ''2025-07-31T01:56:14Z'')
       = {(''temp'', JFloat ''1.0''), (''hum'', JFloat ''80.5''),
          (''ts'', JStr ''2025-07-31T01:56:14Z''), (''location'', JStr ''Beijing''),
          (''productName'', JStr ''Beef'')}
   \<and> calc_sha256 checksum (JObj (beef_event (JFloat ''1.0'') ''2025-07-31T01:56:14Z''))
       = hexdigest (checksum (encode_utf8
           (event_text (JFloat ''80.5'') (JStr ''Beijing'') (JStr ''Beef'') (JFloat ''1.0'')
              (JStr ''2025-07-31T01:56:14Z''))))"
proof -
  let ?d = "beef_event (JFloat ''1.0'') ''2025-07-31T01:56:14Z''"
  have d1: "distinct (map fst ?d)" by (simp add: beef_event_def)
  have eq: "set ?d = {(''temp'', JFloat ''1.0''), (''hum'', JFloat ''80.5''),
          (''ts'', JStr ''2025-07-31T01:56:14Z''), (''location'', JStr ''Beijing''),
          (''productName'', JStr ''Beef'')}"
    by (simp add: beef_event_def)
  from fingerprint_hashes_sorted_payload_text [OF d1 eq, of checksum] d1 eq
  show ?thesis by blast
qed

text \<open>
  Claim C2 as stated fails. The text hashed for the test message with temperature
  \<open>1.0\<close> holds \<open>1.0\<close> and the ISO timestamp, not \<open>100\<close> and epoch seconds; with
  temperature \<open>1\<close>, or with the same instant written \<open>+00:00\<close>, the bytes hashed are
  different, and so is the digest of the stand-in hash.
\<close>

theorem fingerprint_numeric_format_counterexample:
  "json_dumps True None (JObj (beef_event (JFloat ''1.0'') ''2025-07-31T01:56:14Z''))
     = ''{'' @ quoted ''hum'' @ '': 80.5, '' @ quoted ''location'' @ '': '' @ quoted ''Beijing''
       @ '', '' @ quoted ''productName'' @ '': '' @ quoted ''Beef''
       @ '', '' @ quoted ''temp'' @ '': 1.0, ''
       @ quoted ''ts'' @ '': '' @ quoted ''2025-07-31T01:56:14Z'' @ ''}''
   \<and> json_dumps True None (JObj (beef_event (JInt 1) ''2025-07-31T01:56:14Z''))
     = ''{'' @ quoted ''hum'' @ '': 80.5, '' @ quoted ''location'' @ '': '' @ quoted ''Beijing''
       @ '', '' @ quoted ''productName'' @ '': '' @ quoted ''Beef''
       @ '', '' @ quoted ''temp'' @ '': 1, ''
       @ quoted ''ts'' @ '': '' @ quoted ''2025-07-31T01:56:14Z'' @ ''}''
   \<and> encode_utf8 (json_dumps True None (JObj (beef_event (JFloat ''1.0'') ''2025-07-31T01:56:14Z'')))
     \<noteq> encode_utf8 (json_dumps True None (JObj (beef_event (JInt 1) ''2025-07-31T01:56:14Z'')))
   \<and> encode_utf8 (json_dumps True None (JObj (beef_event (JFloat ''1.0'') ''2025-07-31T01:56:14Z'')))
     \<noteq> encode_utf8 (json_dumps True None (JObj (beef_event (JFloat ''1.0'') ''2025-07-31T01:56:14+00:00'')))
   \<and> calc_sha256 checksum (JObj (beef_event (JFloat ''1.0'') ''2025-07-31T01:56:14Z'')) = ''6691''
   \<and> calc_sha256 checksum (JObj (beef_event (JInt 1) ''2025-07-31T01:56:14Z'')) = ''6433''"
  by code_simp

section \<open>Properties of the batch accumulator\<close>

lemma on_message_try_valid:
  assumes "loads body = Inr (JObj d)" "batch_id_of rk = Some k"
    "is_number (dict_get d ''temp'')" "is_number (dict_get d ''hum'')"
    "make_record H k d = Inr r"
  shows "on_message_try H loads e rk body s = try_flush_batch e k (append_record k r s)"
  using assms
  by (auto simp: on_message_try_def batch_id_of_def append_record_def split: list.splits)

lemma try_flush_below:
  "length (batch_cache s k) < MAX_PER_BATCH \<Longrightarrow> try_flush_batch e k s = (None, s)"
  by (simp add: try_flush_batch_def)

lemma try_flush_seal:
  "MAX_PER_BATCH \<le> length (batch_cache s k) \<Longrightarrow> writable e (artifact_path e k) \<Longrightarrow>
   try_flush_batch e k s =
     (None, s\<lparr>written := written s @ [(artifact_path e k, json_dumps False (Some 2) (JArr (batch_cache s k)))],
              batch_cache := (batch_cache s)(k := [])\<rparr>)"
  by (simp add: try_flush_batch_def artifact_path_def)

lemma try_flush_fail:
  "MAX_PER_BATCH \<le> length (batch_cache s k) \<Longrightarrow> \<not> writable e (artifact_path e k) \<Longrightarrow>
   try_flush_batch e k s = (Some OSError, s)"
  by (simp add: try_flush_batch_def artifact_path_def)

lemma not_number_missing: "map_of d k = None \<Longrightarrow> \<not> is_number (dict_get d k)"
  by (simp add: dict_get_def)

lemma make_record_no_ts: "map_of d ''ts'' = None \<Longrightarrow> make_record H k d = Inl KeyError"
  by (simp add: make_record_def dict_item_def)

lemma on_message_try_not_number:
  assumes "loads body = Inr (JObj d)" "batch_id_of rk = Some k"
    "\<not> is_number (dict_get d ''temp'') \<or> \<not> is_number (dict_get d ''hum'')"
  shows "on_message_try H loads e rk body s = (None, s)"
  using assms by (auto simp: on_message_try_def batch_id_of_def split: list.splits)

lemma on_message_try_no_ts:
  assumes "loads body = Inr (JObj d)" "batch_id_of rk = Some k"
    "is_number (dict_get d ''temp'')" "is_number (dict_get d ''hum'')" "map_of d ''ts'' = None"
  shows "on_message_try H loads e rk body s = (Some KeyError, s)"
  using assms
  by (auto simp: on_message_try_def batch_id_of_def make_record_no_ts split: list.splits)

lemma on_message_try_cases:
  assumes "on_message_try H loads e rk body s = (r, s')"
  shows "s' = s \<or> (\<exists>k rcd. try_flush_batch e k (append_record k rcd s) = (r, s'))"
proof (cases "\<exists>k rcd. on_message_try H loads e rk body s
    = try_flush_batch e k (append_record k rcd s)")
  case True
  then obtain k rcd where "on_message_try H loads e rk body s
      = try_flush_batch e k (append_record k rcd s)" by blast
  with assms have "try_flush_batch e k (append_record k rcd s) = (r, s')" by simp
  then show ?thesis by blast
next
  case False
  then have "snd (on_message_try H loads e rk body s) = s"
    by (auto simp: on_message_try_def append_record_def
        split: sum.splits list.splits json.splits if_splits)
  with assms show ?thesis by simp
qed

lemma make_record_ok:
  assumes "map_of d ''ts'' = Some ts" "map_of d ''temp'' = Some temp" "map_of d ''hum'' = Some hum"
    "map_of d ''location'' = Some location" "map_of d ''productName'' = Some productName"
  shows "make_record H k d =
     Inr (JObj [(''batch_id'', JStr k), (''ts'', ts), (''temp'', temp), (''hum'', hum),
                (''location'', location), (''productName'', productName),
                (''hash'', JStr (calc_sha256 H (JObj d)))])"
  using assms by (simp add: make_record_def dict_item_def)

lemma try_flush_inv:
  assumes "\<forall>k'. k' \<noteq> k \<longrightarrow> length (batch_cache s k') < MAX_PER_BATCH"
    "try_flush_batch e k s = (None, s')"
  shows "length (batch_cache s' k') < MAX_PER_BATCH"
proof (cases "k' = k")
  case True
  with assms(2) show ?thesis
    by (auto simp: try_flush_batch_def MAX_PER_BATCH_def Let_def split: if_splits)
next
  case False
  with assms show ?thesis
    by (auto simp: try_flush_batch_def Let_def split: if_splits)
qed

lemma try_flush_writable:
  "\<forall>p. writable e p \<Longrightarrow> fst (try_flush_batch e k s) = None"
  by (simp add: try_flush_batch_def Let_def)

subsection \<open>The test run\<close>

lemma test_batch_id: "batch_id_of ''coldchain/batch321/sensor'' = Some ''batch321''"
  by code_simp

lemma test_numbers:
  "is_number (dict_get (beef_event (JFloat t) ts) ''temp'')"
  "is_number (dict_get (beef_event (JFloat t) ts) ''hum'')"
  by (simp_all add: beef_event_def dict_get_def)

lemma test_make_record:
  "make_record checksum ''batch321'' (beef_event (JFloat t) ''2025-07-31T01:56:14Z'')
     = Inr (test_record t)"
  by (simp add: make_record_def dict_item_def beef_event_def test_record_def)

lemma after_three_cache:
  "batch_cache after_three ''batch321''
     = [test_record ''1.0'', test_record ''2.0'', test_record ''3.5'']"
  by code_simp

lemma after_three_all:
  "batch_cache after_three
     = (\<lambda>k. [])(''batch321'' := [test_record ''1.0'', test_record ''2.0'', test_record ''3.5''])"
  by (simp add: after_three_def test_delivery_def on_message_def on_message_try_def env_at_def
      initial_state_def beef_event_def make_record_def dict_item_def dict_get_def
      try_flush_batch_def MAX_PER_BATCH_def test_record_def)

lemma test_writable: "writable (env_at now True) path"
  by (simp add: env_at_def)

subsection \<open>Sealing at the threshold\<close>

text \<open>
  Claim C3, as the code has it. A valid arrival for key \<open>k\<close> is one that passes both
  numeric checks and whose record \<open>r\<close> is built. While the entry of \<open>k\<close> holds fewer
  than \<open>N - 1 = 3\<close> records, the arrival is acknowledged, appended, and nothing is
  written. When the entry holds \<open>N - 1\<close> records, the arrival is the \<open>N\<close>th: if the
  artifact file can be written, exactly one artifact is written, holding the \<open>N\<close>
  records in arrival order, and the entry is cleared; the next valid arrival for \<open>k\<close>
  then finds an empty history and the entry is that one record. If the write raises,
  the \<open>N\<close>th arrival is rejected, nothing is written and the entry keeps its \<open>N\<close>
  records.
\<close>

theorem nth_arrival_seals_once:
  assumes "loads body = Inr (JObj d)" "batch_id_of rk = Some k"
    "is_number (dict_get d ''temp'')" "is_number (dict_get d ''hum'')"
    "make_record H k d = Inr r"
    and "loads body2 = Inr (JObj d2)" "batch_id_of rk2 = Some k"
    "is_number (dict_get d2 ''temp'')" "is_number (dict_get d2 ''hum'')"
    "make_record H k d2 = Inr r2"
  shows "(length (batch_cache s k) + 1 < MAX_PER_BATCH \<longrightarrow>
           on_message H loads e rk body s = (Ack, append_record k r s))
       \<and> (length (batch_cache s k) + 1 = MAX_PER_BATCH \<and> writable e (artifact_path e k) \<longrightarrow>
           on_message H loads e rk body s =
             (Ack, s\<lparr>written := written s @
                        [(artifact_path e k, json_dumps False (Some 2) (JArr (batch_cache s k @ [r])))],
                      batch_cache := (batch_cache s)(k := [])\<rparr>)
           \<and> batch_cache (snd (on_message H loads e2 rk2 body2
                 (snd (on_message H loads e rk body s)))) k = [r2])
       \<and> (length (batch_cache s k) + 1 = MAX_PER_BATCH \<and> \<not> writable e (artifact_path e k) \<longrightarrow>
           on_message H loads e rk body s = (Nack, append_record k r s))"
proof -
  have step: "on_message_try H loads e rk body s = try_flush_batch e k (append_record k r s)"
    using assms(1-5) on_message_try_valid [of loads body d rk k H r e s] by simp
  have next_step: "on_message_try H loads e2 rk2 body2 s' = try_flush_batch e2 k (append_record k r2 s')"
    for s'
    using assms(6-10) on_message_try_valid [of loads body2 d2 rk2 k H r2 e2 s'] by simp
  have below: "on_message H loads e rk body s = (Ack, append_record k r s)"
    if "length (batch_cache s k) + 1 < MAX_PER_BATCH"
    using that step by (simp add: on_message_def try_flush_below append_record_def)
  have seal: "on_message H loads e rk body s =
             (Ack, s\<lparr>written := written s @
                        [(artifact_path e k, json_dumps False (Some 2) (JArr (batch_cache s k @ [r])))],
                      batch_cache := (batch_cache s)(k := [])\<rparr>)"
    if "length (batch_cache s k) + 1 = MAX_PER_BATCH" "writable e (artifact_path e k)"
    using that step by (simp add: on_message_def try_flush_seal append_record_def)
  have after: "batch_cache (snd (on_message H loads e2 rk2 body2
                 (snd (on_message H loads e rk body s)))) k = [r2]"
    if "length (batch_cache s k) + 1 = MAX_PER_BATCH" "writable e (artifact_path e k)"
    using seal [OF that] next_step
    by (simp add: on_message_def try_flush_below append_record_def MAX_PER_BATCH_def)
  have failed: "on_message H loads e rk body s = (Nack, append_record k r s)"
    if "length (batch_cache s k) + 1 = MAX_PER_BATCH" "\<not> writable e (artifact_path e k)"
    using that step by (simp add: on_message_def try_flush_fail append_record_def)
  from below seal after failed show ?thesis by blast
qed

theorem nth_arrival_seals_once_witness:
  "batch_id_of ''coldchain/batch321/sensor'' = Some ''batch321''
   \<and> is_number (dict_get (beef_event (JFloat ''4.0'') ''2025-07-31T01:56:14Z'') ''temp'')
   \<and> is_number (dict_get (beef_event (JFloat ''4.0'') ''2025-07-31T01:56:14Z'') ''hum'')
   \<and> make_record checksum ''batch321'' (beef_event (JFloat ''4.0'') ''2025-07-31T01:56:14Z'')
       = Inr (test_record ''4.0'')
   \<and> make_record checksum ''batch321'' (beef_event (JFloat ''5.0'') ''2025-07-31T01:56:14Z'')
       = Inr (test_record ''5.0'')
   \<and> length (batch_cache after_three ''batch321'') + 1 = MAX_PER_BATCH
   \<and> writable (env_at ''20250731T020929Z'' True)
         (artifact_path (env_at ''20250731T020929Z'' True) ''batch321'')
   \<and> on_message checksum Inr (env_at ''20250731T020929Z'' True) ''coldchain/batch321/sensor''
         (JObj (beef_event (JFloat ''4.0'') ''2025-07-31T01:56:14Z'')) after_three
       = (Ack, after_three\<lparr>written := written after_three @
            [(artifact_path (env_at ''20250731T020929Z'' True) ''batch321'',
              json_dumps False (Some 2)
                (JArr (batch_cache after_three ''batch321'' @ [test_record ''4.0''])))],
            batch_cache := (batch_cache after_three)(''batch321'' := [])\<rparr>)
   \<and> batch_cache (snd (on_message checksum Inr (env_at ''20250731T021000Z'' True)
           ''coldchain/batch321/sensor'' (JObj (beef_event (JFloat ''5.0'') ''2025-07-31T01:56:14Z''))
           (snd (on_message checksum Inr (env_at ''20250731T020929Z'' True)
              ''coldchain/batch321/sensor''
              (JObj (beef_event (JFloat ''4.0'') ''2025-07-31T01:56:14Z'')) after_three))))
         ''batch321''
       = [test_record ''5.0'']"
proof -
  have len: "length (batch_cache after_three ''batch321'') + 1 = MAX_PER_BATCH"
    by (simp add: after_three_cache MAX_PER_BATCH_def)
  note w = test_writable [of "''20250731T020929Z''"
      "artifact_path (env_at ''20250731T020929Z'' True) ''batch321''"]
  from nth_arrival_seals_once [of Inr "JObj (beef_event (JFloat ''4.0'') ''2025-07-31T01:56:14Z'')"
      "beef_event (JFloat ''4.0'') ''2025-07-31T01:56:14Z''" "''coldchain/batch321/sensor''"
      "''batch321''" checksum "test_record ''4.0''"
      "JObj (beef_event (JFloat ''5.0'') ''2025-07-31T01:56:14Z'')"
      "beef_event (JFloat ''5.0'') ''2025-07-31T01:56:14Z''" "''coldchain/batch321/sensor''"
      "test_record ''5.0''" after_three "env_at ''20250731T020929Z'' True"
      "env_at ''20250731T021000Z'' True",
      OF refl test_batch_id test_numbers test_make_record refl test_batch_id test_numbers
        test_make_record]
    len w test_batch_id test_numbers [of "''4.0''" "''2025-07-31T01:56:14Z''"]
    test_make_record [of "''4.0''"] test_make_record [of "''5.0''"]
  show ?thesis by blast
qed

text \<open>
  Claim C3 as stated fails. With three records in the entry of \<open>batch321\<close>, a fourth
  valid arrival whose artifact cannot be written is rejected: no artifact is written
  and the entry is not cleared. The fifth valid arrival then writes one artifact of five
  records.
\<close>

theorem fourth_arrival_not_sealed_counterexample:
  "fst (consume checksum Inr
          [test_delivery ''1.0'' True, test_delivery ''2.0'' True, test_delivery ''3.5'' True,
           test_delivery ''4.0'' False] initial_state)
     = [Ack, Ack, Ack, Nack]
   \<and> written (snd (consume checksum Inr
          [test_delivery ''1.0'' True, test_delivery ''2.0'' True, test_delivery ''3.5'' True,
           test_delivery ''4.0'' False] initial_state))
     = []
   \<and> batch_cache (snd (consume checksum Inr
          [test_delivery ''1.0'' True, test_delivery ''2.0'' True, test_delivery ''3.5'' True,
           test_delivery ''4.0'' False] initial_state)) ''batch321''
     = [test_record ''1.0'', test_record ''2.0'', test_record ''3.5'', test_record ''4.0'']
   \<and> written (snd (consume checksum Inr
          [test_delivery ''1.0'' True, test_delivery ''2.0'' True, test_delivery ''3.5'' True,
           test_delivery ''4.0'' False, test_delivery ''5.0'' True] initial_state))
     = [(artifact_path (env_at ''20250731T020929Z'' True) ''batch321'',
         json_dumps False (Some 2)
           (JArr [test_record ''1.0'', test_record ''2.0'', test_record ''3.5'',
                  test_record ''4.0'', test_record ''5.0'']))]"
  by code_simp

subsection \<open>Malformed messages\<close>

text \<open>
  Claim C5, as the code has it. For a malformed payload (a JSON object, under a routing
  key with a batch segment) nothing is appended and the state is unchanged. When
  \<open>temp\<close> or \<open>hum\<close> is missing or not a number, the message is acknowledged. When both
  are numbers and \<open>ts\<close> is missing, building the record raises \<open>KeyError\<close> and the
  message is rejected with \<open>basic_nack(requeue=False)\<close>: dropped, not redelivered.
\<close>

theorem malformed_message_dropped:
  assumes "loads body = Inr (JObj d)" "batch_id_of rk = Some k" "malformed d"
  shows "snd (on_message H loads e rk body s) = s
       \<and> (if is_number (dict_get d ''temp'') \<and> is_number (dict_get d ''hum'')
          then fst (on_message H loads e rk body s) = Nack
          else fst (on_message H loads e rk body s) = Ack)"
proof (cases "is_number (dict_get d ''temp'') \<and> is_number (dict_get d ''hum'')")
  case True
  with assms(3) have "map_of d ''ts'' = None"
    by (auto simp: malformed_def dest: not_number_missing)
  with True assms(1,2) have "on_message_try H loads e rk body s = (Some KeyError, s)"
    using on_message_try_no_ts [of loads body d rk k H e s] by simp
  with True show ?thesis by (simp add: on_message_def)
next
  case False
  with assms(1,2) have "on_message_try H loads e rk body s = (None, s)"
    using on_message_try_not_number [of loads body d rk k H e s] by blast
  with False show ?thesis by (simp add: on_message_def)
qed

theorem malformed_message_dropped_witness:
  "batch_id_of ''coldchain/batch321/sensor'' = Some ''batch321''
   \<and> malformed [(''temp'', JFloat ''1.0''), (''ts'', JStr ''2025-07-31T01:56:14Z'')]
   \<and> snd (on_message checksum Inr (env_at ''20250731T020929Z'' True) ''coldchain/batch321/sensor''
         (JObj [(''temp'', JFloat ''1.0''), (''ts'', JStr ''2025-07-31T01:56:14Z'')]) after_three)
       = after_three
   \<and> fst (on_message checksum Inr (env_at ''20250731T020929Z'' True) ''coldchain/batch321/sensor''
         (JObj [(''temp'', JFloat ''1.0''), (''ts'', JStr ''2025-07-31T01:56:14Z'')]) after_three)
       = Ack"
proof -
  have m: "malformed [(''temp'', JFloat ''1.0''), (''ts'', JStr ''2025-07-31T01:56:14Z'')]"
    by (simp add: malformed_def)
  have n: "\<not> is_number (dict_get [(''temp'', JFloat ''1.0''), (''ts'', JStr ''2025-07-31T01:56:14Z'')] ''hum'')"
    by (simp add: dict_get_def)
  from malformed_message_dropped [of Inr
      "JObj [(''temp'', JFloat ''1.0''), (''ts'', JStr ''2025-07-31T01:56:14Z'')]"
      "[(''temp'', JFloat ''1.0''), (''ts'', JStr ''2025-07-31T01:56:14Z'')]"
      "''coldchain/batch321/sensor''" "''batch321''" checksum
      "env_at ''20250731T020929Z'' True" after_three, OF refl test_batch_id m] n m test_batch_id
  show ?thesis by simp
qed

text \<open>
  Claim C5 as stated fails: a message with numeric \<open>temp\<close> and \<open>hum\<close> and no \<open>ts\<close>
  is malformed and is answered with a nack, not an ack.
\<close>

theorem missing_ts_nacked_counterexample:
  "malformed [(''temp'', JFloat ''1.0''), (''hum'', JFloat ''80.5''),
              (''location'', JStr ''Beijing''), (''productName'', JStr ''Beef'')]
   \<and> fst (on_message checksum Inr (env_at ''20250731T020929Z'' True) ''coldchain/batch321/sensor''
         (JObj [(''temp'', JFloat ''1.0''), (''hum'', JFloat ''80.5''),
                (''location'', JStr ''Beijing''), (''productName'', JStr ''Beef'')]) initial_state)
       = Nack"
  by code_simp

subsection \<open>The artifact\<close>

text \<open>
  Claim C7. The body of the artifact is the indented JSON text of the record list and
  of nothing else: sealing the same records twice, at different times, under different
  keys or in different states, writes the same content (the path alone carries the key
  and the time).
\<close>

theorem artifact_content_repeatable:
  assumes "batch_cache s1 k1 = records" "batch_cache s2 k2 = records"
    "MAX_PER_BATCH \<le> length records"
    "writable e1 (artifact_path e1 k1)" "writable e2 (artifact_path e2 k2)"
  shows "written (snd (try_flush_batch e1 k1 s1))
           = written s1 @ [(artifact_path e1 k1, json_dumps False (Some 2) (JArr records))]
       \<and> written (snd (try_flush_batch e2 k2 s2))
           = written s2 @ [(artifact_path e2 k2, json_dumps False (Some 2) (JArr records))]"
  using assms by (simp add: try_flush_seal)

theorem artifact_content_repeatable_witness:
  "batch_cache (append_record ''batch321'' (test_record ''4.0'') after_three) ''batch321''
     = [test_record ''1.0'', test_record ''2.0'', test_record ''3.5'', test_record ''4.0'']
   \<and> MAX_PER_BATCH
       \<le> length [test_record ''1.0'', test_record ''2.0'', test_record ''3.5'', test_record ''4.0'']
   \<and> writable (env_at ''20250731T020929Z'' True)
         (artifact_path (env_at ''20250731T020929Z'' True) ''batch321'')
   \<and> writable (env_at ''20250731T021000Z'' True)
         (artifact_path (env_at ''20250731T021000Z'' True) ''batch321'')
   \<and> written (snd (try_flush_batch (env_at ''20250731T020929Z'' True) ''batch321''
         (append_record ''batch321'' (test_record ''4.0'') after_three)))
       = written (append_record ''batch321'' (test_record ''4.0'') after_three)
         @ [(artifact_path (env_at ''20250731T020929Z'' True) ''batch321'',
             json_dumps False (Some 2) (JArr
               [test_record ''1.0'', test_record ''2.0'', test_record ''3.5'', test_record ''4.0'']))]
   \<and> written (snd (try_flush_batch (env_at ''20250731T021000Z'' True) ''batch321''
         (append_record ''batch321'' (test_record ''4.0'') after_three)))
       = written (append_record ''batch321'' (test_record ''4.0'') after_three)
         @ [(artifact_path (env_at ''20250731T021000Z'' True) ''batch321'',
             json_dumps False (Some 2) (JArr
               [test_record ''1.0'', test_record ''2.0'', test_record ''3.5'', test_record ''4.0'']))]"
proof -
  let ?s = "append_record ''batch321'' (test_record ''4.0'') after_three"
  let ?rs = "[test_record ''1.0'', test_record ''2.0'', test_record ''3.5'', test_record ''4.0'']"
  have c: "batch_cache ?s ''batch321'' = ?rs"
    by (simp add: append_record_def after_three_cache)
  have l: "MAX_PER_BATCH \<le> length ?rs" by (simp add: MAX_PER_BATCH_def)
  note w1 = test_writable [of "''20250731T020929Z''"
      "artifact_path (env_at ''20250731T020929Z'' True) ''batch321''"]
  note w2 = test_writable [of "''20250731T021000Z''"
      "artifact_path (env_at ''20250731T021000Z'' True) ''batch321''"]
  from artifact_content_repeatable [OF c c l w1 w2] c l w1 w2 show ?thesis by blast
qed

subsection \<open>Booleans pass the numeric check\<close>

text \<open>
  Claim C9. A payload with the five fields in which \<open>temp\<close> or \<open>hum\<close> is a JSON
  boolean, the other being a number, is not rejected by the numeric check: its record
  \<open>r\<close>, with the boolean in it and the fingerprint of the payload, is appended to
  the entry of its batch and counts toward the threshold like any other. Below the
  threshold the message is acknowledged and the entry is one record longer. When the
  record brings the entry to the threshold, the batch is sealed with that record as
  its last one and the entry is cleared; if that write raises, the message is rejected
  with the record kept in the entry.
\<close>

theorem boolean_reading_accepted:
  assumes "loads body = Inr (JObj d)" "batch_id_of rk = Some k"
    "map_of d ''ts'' = Some ts" "map_of d ''temp'' = Some temp" "map_of d ''hum'' = Some hum"
    "map_of d ''location'' = Some location" "map_of d ''productName'' = Some productName"
    "(temp = JBool b \<and> is_number hum) \<or> (is_number temp \<and> hum = JBool b)"
    "r = JObj [(''batch_id'', JStr k), (''ts'', ts), (''temp'', temp), (''hum'', hum),
                (''location'', location), (''productName'', productName),
                (''hash'', JStr (calc_sha256 H (JObj d)))]"
  shows "on_message_try H loads e rk body s = try_flush_batch e k (append_record k r s)
       \<and> batch_cache (append_record k r s) k = batch_cache s k @ [r]
       \<and> (length (batch_cache s k) + 1 < MAX_PER_BATCH \<longrightarrow>
            on_message H loads e rk body s = (Ack, append_record k r s))
       \<and> (MAX_PER_BATCH \<le> length (batch_cache s k) + 1 \<and> writable e (artifact_path e k) \<longrightarrow>
            on_message H loads e rk body s =
              (Ack, s\<lparr>written := written s @
                         [(artifact_path e k, json_dumps False (Some 2) (JArr (batch_cache s k @ [r])))],
                       batch_cache := (batch_cache s)(k := [])\<rparr>))
       \<and> (MAX_PER_BATCH \<le> length (batch_cache s k) + 1 \<and> \<not> writable e (artifact_path e k) \<longrightarrow>
            on_message H loads e rk body s = (Nack, append_record k r s))"
proof -
  from assms(8) have num: "is_number temp" "is_number hum" by auto
  with assms(4,5) have "is_number (dict_get d ''temp'')" "is_number (dict_get d ''hum'')"
    by (simp_all add: dict_get_def)
  moreover have "make_record H k d = Inr r"
    unfolding assms(9) using assms(3-7) by (rule make_record_ok)
  ultimately have step:
    "on_message_try H loads e rk body s = try_flush_batch e k (append_record k r s)"
    using assms(1,2) on_message_try_valid [of loads body d rk k H r e s] by simp
  have appended: "batch_cache (append_record k r s) k = batch_cache s k @ [r]"
    by (simp add: append_record_def)
  have below: "on_message H loads e rk body s = (Ack, append_record k r s)"
    if "length (batch_cache s k) + 1 < MAX_PER_BATCH"
    using that step by (simp add: on_message_def try_flush_below append_record_def)
  have seal: "on_message H loads e rk body s =
              (Ack, s\<lparr>written := written s @
                         [(artifact_path e k, json_dumps False (Some 2) (JArr (batch_cache s k @ [r])))],
                       batch_cache := (batch_cache s)(k := [])\<rparr>)"
    if "MAX_PER_BATCH \<le> length (batch_cache s k) + 1" "writable e (artifact_path e k)"
    using that step by (simp add: on_message_def try_flush_seal append_record_def)
  have failed: "on_message H loads e rk body s = (Nack, append_record k r s)"
    if "MAX_PER_BATCH \<le> length (batch_cache s k) + 1" "\<not> writable e (artifact_path e k)"
    using that step by (simp add: on_message_def try_flush_fail append_record_def)
  from step appended below seal failed show ?thesis by blast
qed

theorem boolean_reading_accepted_witness:
  "batch_id_of ''coldchain/batch321/sensor'' = Some ''batch321''
   \<and> map_of (beef_event (JBool True) ''2025-07-31T01:56:14Z'') ''temp'' = Some (JBool True)
   \<and> is_number (JFloat ''80.5'')
   \<and> MAX_PER_BATCH \<le> length (batch_cache after_three ''batch321'') + 1
   \<and> writable (env_at ''20250731T020929Z'' True)
         (artifact_path (env_at ''20250731T020929Z'' True) ''batch321'')
   \<and> on_message checksum Inr (env_at ''20250731T020929Z'' True) ''coldchain/batch321/sensor''
         (JObj (beef_event (JBool True) ''2025-07-31T01:56:14Z'')) after_three
       = (Ack, after_three\<lparr>written := written after_three @
            [(artifact_path (env_at ''20250731T020929Z'' True) ''batch321'',
              json_dumps False (Some 2) (JArr (batch_cache after_three ''batch321'' @
                [JObj [(''batch_id'', JStr ''batch321''), (''ts'', JStr ''2025-07-31T01:56:14Z''),
                       (''temp'', JBool True), (''hum'', JFloat ''80.5''),
                       (''location'', JStr ''Beijing''), (''productName'', JStr ''Beef''),
                       (''hash'', JStr (calc_sha256 checksum
                          (JObj (beef_event (JBool True) ''2025-07-31T01:56:14Z''))))]])))],
            batch_cache := (batch_cache after_three)(''batch321'' := [])\<rparr>)"
proof -
  let ?d = "beef_event (JBool True) ''2025-07-31T01:56:14Z''"
  have f: "map_of ?d ''ts'' = Some (JStr ''2025-07-31T01:56:14Z'')"
    "map_of ?d ''temp'' = Some (JBool True)" "map_of ?d ''hum'' = Some (JFloat ''80.5'')"
    "map_of ?d ''location'' = Some (JStr ''Beijing'')"
    "map_of ?d ''productName'' = Some (JStr ''Beef'')"
    by (simp_all add: beef_event_def)
  have b: "(JBool True = JBool True \<and> is_number (JFloat ''80.5''))
      \<or> (is_number (JBool True) \<and> JFloat ''80.5'' = JBool True)"
    by simp
  have l: "MAX_PER_BATCH \<le> length (batch_cache after_three ''batch321'') + 1"
    by (simp add: after_three_cache MAX_PER_BATCH_def)
  note w = test_writable [of "''20250731T020929Z''"
      "artifact_path (env_at ''20250731T020929Z'' True) ''batch321''"]
  from boolean_reading_accepted [of Inr "JObj ?d" ?d "''coldchain/batch321/sensor''"
      "''batch321''" _ _ _ _ _ True _ checksum "env_at ''20250731T020929Z'' True" after_three,
      OF refl test_batch_id f b refl] l w test_batch_id f(2)
  show ?thesis by simp
qed

subsection \<open>Entries stay below the threshold while writes succeed\<close>

text \<open>
  Claim C10, as the code has it. If every entry of the cache holds fewer than
  \<open>MAX_PER_BATCH\<close> records before a message is handled, then so it is afterwards,
  provided the message is acknowledged or the artifact file can be written. (A write
  that raises leaves the entry with the records it had reached, and the message is
  rejected.)
\<close>

theorem entries_below_threshold:
  assumes "\<forall>k. length (batch_cache s k) < MAX_PER_BATCH"
    "on_message H loads e rk body s = (dl, s')"
    "dl = Ack \<or> (\<forall>p. writable e p)"
  shows "\<forall>k. length (batch_cache s' k) < MAX_PER_BATCH"
proof -
  obtain r where tried: "on_message_try H loads e rk body s = (r, s')"
    and dl: "dl = (case r of None \<Rightarrow> Ack | Some err \<Rightarrow> Nack)"
    using assms(2) by (auto simp: on_message_def split: prod.splits option.splits)
  from on_message_try_cases [OF tried]
  consider "s' = s" | k rcd where "try_flush_batch e k (append_record k rcd s) = (r, s')"
    by blast
  then show ?thesis
  proof cases
    case 1
    with assms(1) show ?thesis by simp
  next
    case 2
    have "r = None"
    proof (cases "dl = Ack")
      case True
      with dl show ?thesis by (cases r) auto
    next
      case False
      with assms(3) have "\<forall>p. writable e p" by simp
      from try_flush_writable [OF this, of k "append_record k rcd s"] 2 show ?thesis by simp
    qed
    moreover have "\<forall>k'. k' \<noteq> k \<longrightarrow> length (batch_cache (append_record k rcd s) k') < MAX_PER_BATCH"
      using assms(1) by (simp add: append_record_def)
    ultimately show ?thesis using 2 try_flush_inv by blast
  qed
qed


theorem entries_below_threshold_witness:
  "(\<forall>k. length (batch_cache after_three k) < MAX_PER_BATCH)
   \<and> on_message checksum Inr (env_at ''20250731T020929Z'' True) ''coldchain/batch321/sensor''
         (JObj (beef_event (JFloat ''4.0'') ''2025-07-31T01:56:14Z'')) after_three
       = (Ack, after_three\<lparr>written := written after_three @
            [(artifact_path (env_at ''20250731T020929Z'' True) ''batch321'',
              json_dumps False (Some 2)
                (JArr (batch_cache after_three ''batch321'' @ [test_record ''4.0''])))],
            batch_cache := (batch_cache after_three)(''batch321'' := [])\<rparr>)
   \<and> (\<forall>k. length (batch_cache (after_three\<lparr>written := written after_three @
            [(artifact_path (env_at ''20250731T020929Z'' True) ''batch321'',
              json_dumps False (Some 2)
                (JArr (batch_cache after_three ''batch321'' @ [test_record ''4.0''])))],
            batch_cache := (batch_cache after_three)(''batch321'' := [])\<rparr>) k) < MAX_PER_BATCH)"
proof -
  have inv: "\<forall>k. length (batch_cache after_three k) < MAX_PER_BATCH"
    by (simp add: after_three_all MAX_PER_BATCH_def)
  have "on_message_try checksum Inr (env_at ''20250731T020929Z'' True) ''coldchain/batch321/sensor''
         (JObj (beef_event (JFloat ''4.0'') ''2025-07-31T01:56:14Z'')) after_three
       = try_flush_batch (env_at ''20250731T020929Z'' True) ''batch321''
           (append_record ''batch321'' (test_record ''4.0'') after_three)"
    using on_message_try_valid [of Inr "JObj (beef_event (JFloat ''4.0'') ''2025-07-31T01:56:14Z'')"
        "beef_event (JFloat ''4.0'') ''2025-07-31T01:56:14Z''" "''coldchain/batch321/sensor''"
        "''batch321''" checksum "test_record ''4.0''" "env_at ''20250731T020929Z'' True" after_three]
      test_batch_id test_numbers [of "''4.0''" "''2025-07-31T01:56:14Z''"]
      test_make_record [of "''4.0''"]
    by simp
  then have step: "on_message checksum Inr (env_at ''20250731T020929Z'' True) ''coldchain/batch321/sensor''
         (JObj (beef_event (JFloat ''4.0'') ''2025-07-31T01:56:14Z'')) after_three
       = (Ack, after_three\<lparr>written := written after_three @
            [(artifact_path (env_at ''20250731T020929Z'' True) ''batch321'',
              json_dumps False (Some 2)
                (JArr (batch_cache after_three ''batch321'' @ [test_record ''4.0''])))],
            batch_cache := (batch_cache after_three)(''batch321'' := [])\<rparr>)"
    by (simp add: on_message_def try_flush_seal append_record_def after_three_cache
        MAX_PER_BATCH_def test_writable)
  from entries_below_threshold [OF inv step] inv step show ?thesis by blast
qed

text \<open>
  Claim C10 as stated fails. After three valid deliveries for \<open>batch321\<close>, a fourth
  whose artifact cannot be written (as when the file name made from the batch key is
  not one the file system takes) is rejected, and the entry holds four records when
  the step is over.
\<close>

theorem failed_write_leaves_full_entry:
  "fst (consume checksum Inr
          [test_delivery ''1.0'' True, test_delivery ''2.0'' True, test_delivery ''3.5'' True,
           test_delivery ''4.0'' False] initial_state)
     = [Ack, Ack, Ack, Nack]
   \<and> length (batch_cache (snd (consume checksum Inr
          [test_delivery ''1.0'' True, test_delivery ''2.0'' True, test_delivery ''3.5'' True,
           test_delivery ''4.0'' False] initial_state)) ''batch321'')
     = MAX_PER_BATCH"
  by code_simp

end
